theory Spec2Isabelle
  imports Main "HOL-Library.FSet"
begin

section \<open>The Go standard library, as far as the mirrored code calls it\<close>

text \<open>
  The repository is written against Go's standard library. The functions it calls are
  modelled here on byte strings (\<open>string\<close> is a list of 8-bit characters, as a Go string
  is a sequence of bytes). Each model names the library function it stands for.
\<close>

subsection \<open>Package strings\<close>

definition dq :: char where
  "dq = CHR 0x22"

definition nl :: char where
  "nl = CHR 0x0A"

definition HasPrefix :: "string \<Rightarrow> string \<Rightarrow> bool" where
  "HasPrefix s p = (take (length p) s = p)"

definition HasSuffix :: "string \<Rightarrow> string \<Rightarrow> bool" where
  "HasSuffix s p = (length p \<le> length s \<and> drop (length s - length p) s = p)"

text \<open>\<open>strings.Index\<close>: the position of the first occurrence, \<open>None\<close> for Go's \<open>-1\<close>.\<close>

fun Index :: "string \<Rightarrow> string \<Rightarrow> nat option" where
  "Index [] sub = (if sub = [] then Some 0 else None)"
| "Index (c # cs) sub =
     (if HasPrefix (c # cs) sub then Some 0 else map_option Suc (Index cs sub))"

definition Contains :: "string \<Rightarrow> string \<Rightarrow> bool" where
  "Contains s sub = (Index s sub \<noteq> None)"

definition TrimPrefix :: "string \<Rightarrow> string \<Rightarrow> string" where
  "TrimPrefix s p = (if HasPrefix s p then drop (length p) s else s)"

definition TrimSuffix :: "string \<Rightarrow> string \<Rightarrow> string" where
  "TrimSuffix s p = (if HasSuffix s p then take (length s - length p) s else s)"

text \<open>
  \<open>strings.TrimSpace\<close> strips Unicode white space; the model strips the ASCII white
  space characters (tab, line feed, vertical tab, form feed, carriage return, space).
\<close>

definition isSpace :: "char \<Rightarrow> bool" where
  "isSpace c = (c \<in> set [CHR 0x09, CHR 0x0A, CHR 0x0B, CHR 0x0C, CHR 0x0D, CHR 0x20])"

definition TrimSpace :: "string \<Rightarrow> string" where
  "TrimSpace s = rev (dropWhile isSpace (rev (dropWhile isSpace s)))"

text \<open>\<open>strings.ToLower\<close> on ASCII letters.\<close>

definition lowerChar :: "char \<Rightarrow> char" where
  "lowerChar c =
     (case map_of (zip ''ABCDEFGHIJKLMNOPQRSTUVWXYZ'' ''abcdefghijklmnopqrstuvwxyz'') c of
        Some l \<Rightarrow> l | None \<Rightarrow> c)"

definition ToLower :: "string \<Rightarrow> string" where
  "ToLower s = map lowerChar s"

text \<open>\<open>strings.Cut\<close> with a one-byte separator: before, after, found.\<close>

definition Cut :: "string \<Rightarrow> char \<Rightarrow> string \<times> string \<times> bool" where
  "Cut s c = (takeWhile (\<lambda>x. x \<noteq> c) s, drop 1 (dropWhile (\<lambda>x. x \<noteq> c) s), c \<in> set s)"

text \<open>The pieces of \<open>s\<close> between occurrences of \<open>c\<close> (\<open>strings.Split\<close>).\<close>

fun splitOn :: "char \<Rightarrow> string \<Rightarrow> string list" where
  "splitOn c [] = [[]]"
| "splitOn c (x # xs) =
     (case splitOn c xs of
        [] \<Rightarrow> [[x]]
      | p # ps \<Rightarrow> if x = c then [] # p # ps else (x # p) # ps)"

fun joinWith :: "char \<Rightarrow> string list \<Rightarrow> string" where
  "joinWith c [] = []"
| "joinWith c [p] = p"
| "joinWith c (p # q # ps) = p @ c # joinWith c (q # ps)"

text \<open>\<open>fmt.Sprintf("%d", n)\<close> for a non-negative \<open>n\<close>.\<close>

fun itoa :: "nat \<Rightarrow> string" where
  "itoa n = (if n < 10 then [''0123456789'' ! n]
             else itoa (n div 10) @ [''0123456789'' ! (n mod 10)])"

declare itoa.simps [simp del]

subsection \<open>Packages path and path/filepath (Unix separators)\<close>

text \<open>
  On a Unix host \<open>filepath.Clean\<close>, \<open>Join\<close>, \<open>Dir\<close> and \<open>Ext\<close> are \<open>path\<close>'s, and
  \<open>filepath.FromSlash\<close> and \<open>ToSlash\<close> are the identity.
\<close>

text \<open>One name of a path against the names kept so far (\<open>Clean\<close>'s rules 2 to 4).\<close>

definition cleanStep :: "bool \<Rightarrow> string list \<Rightarrow> string \<Rightarrow> string list" where
  "cleanStep rooted st c =
     (if c = [] \<or> c = ''.'' then st
      else if c = ''..'' then
        (if st \<noteq> [] \<and> last st \<noteq> ''..'' then butlast st
         else if rooted then st else st @ [c])
      else st @ [c])"

definition Clean :: "string \<Rightarrow> string" where
  "Clean p =
     (let rooted = HasPrefix p ''/'';
          st = foldl (cleanStep rooted) [] (splitOn (CHR ''/'') p)
      in if rooted then CHR ''/'' # joinWith (CHR ''/'') st
         else if st = [] then ''.'' else joinWith (CHR ''/'') st)"

text \<open>\<open>Join\<close> drops empty elements, joins the rest with a slash and cleans the result.\<close>

definition Join :: "string list \<Rightarrow> string" where
  "Join elems =
     (let es = filter (\<lambda>e. e \<noteq> []) elems
      in if es = [] then [] else Clean (joinWith (CHR ''/'') es))"

text \<open>The text up to and including the last slash.\<close>

definition dirPart :: "string \<Rightarrow> string" where
  "dirPart p = rev (dropWhile (\<lambda>x. x \<noteq> CHR ''/'') (rev p))"

definition Dir :: "string \<Rightarrow> string" where
  "Dir p = Clean (dirPart p)"

definition Base :: "string \<Rightarrow> string" where
  "Base p =
     (if p = [] then ''.''
      else let q = rev (dropWhile (\<lambda>x. x = CHR ''/'') (rev p));
               b = rev (takeWhile (\<lambda>x. x \<noteq> CHR ''/'') (rev q))
           in if b = [] then ''/'' else b)"

text \<open>\<open>Ext\<close>: from the last dot of the last element, empty when it has none.\<close>

fun extRev :: "string \<Rightarrow> string \<Rightarrow> string" where
  "extRev [] acc = []"
| "extRev (c # cs) acc =
     (if c = CHR ''/'' then []
      else if c = CHR ''.'' then c # acc
      else extRev cs (c # acc))"

definition Ext :: "string \<Rightarrow> string" where
  "Ext p = extRev (rev p) []"

text \<open>
  The errors of the modelled code: \<open>url.Parse\<close> rejects the text, \<open>filepath.Rel\<close>
  cannot relate the two paths, the scanner meets a line that is too long.
\<close>

datatype err =
    ParseError string
  | RelError string string
  | ErrTooLong

text \<open>
  \<open>filepath.Rel\<close>, name by name: the cleaned paths are split into their names, the
  common leading names are dropped, every name left of the base becomes \<open>..\<close>. It
  fails when one path is rooted and the other is not, and when the base would have to
  be left through a \<open>..\<close> of its own (the name of the current directory is not known).
\<close>

definition names :: "string \<Rightarrow> string list" where
  "names p = (if p = [] then [] else if p = ''/'' then [[]] else splitOn (CHR ''/'') p)"

fun dropCommon :: "string list \<Rightarrow> string list \<Rightarrow> string list \<times> string list" where
  "dropCommon (b # bs) (t # ts) = (if b = t then dropCommon bs ts else (b # bs, t # ts))"
| "dropCommon bs ts = (bs, ts)"

definition Rel :: "string \<Rightarrow> string \<Rightarrow> err + string" where
  "Rel basepath targpath =
     (let base0 = Clean basepath; targ = Clean targpath
      in if targ = base0 then Inr ''.''
         else let base = (if base0 = ''.'' then [] else base0)
           in if HasPrefix base ''/'' \<noteq> HasPrefix targ ''/'' then Inl (RelError basepath targpath)
              else case dropCommon (names base) (names targ) of
                (bs, ts) \<Rightarrow>
                  if bs \<noteq> [] \<and> hd bs = ''..'' then Inl (RelError basepath targpath)
                  else Inr (joinWith (CHR ''/'') (map (\<lambda>_. ''..'') bs @ ts)))"

subsection \<open>Package net/url\<close>

text \<open>
  A parsed URL, with the fields of Go's \<open>url.URL\<close> that the code reads or prints.
  \<open>Path\<close> holds the decoded path, \<open>RawPath\<close> the path as written when that is not the
  default encoding of \<open>Path\<close>.

  The model follows \<open>url.Parse\<close>, \<open>URL.ResolveReference\<close> and \<open>URL.String\<close> for
  references without user information and with a plain host: the authority is kept as
  the host as it is written, and only its port is validated. No theorem below that
  quantifies over URLs looks inside the parser; the evaluated examples use plain
  \<open>scheme://host/path?query\<close> references.
\<close>

record URL =
  Scheme :: string
  Opaque :: string
  Host :: string
  Path :: string
  RawPath :: string
  OmitHost :: bool
  ForceQuery :: bool
  RawQuery :: string
  Fragment :: string

definition emptyURL :: URL where
  "emptyURL = \<lparr>Scheme = [], Opaque = [], Host = [], Path = [], RawPath = [],
     OmitHost = False, ForceQuery = False, RawQuery = [], Fragment = []\<rparr>"

definition isLetter :: "char \<Rightarrow> bool" where
  "isLetter c = (c \<in> set ''abcdefghijklmnopqrstuvwxyzABCDEFGHIJKLMNOPQRSTUVWXYZ'')"

definition isDigit :: "char \<Rightarrow> bool" where
  "isDigit c = (c \<in> set ''0123456789'')"

definition ishex :: "char \<Rightarrow> bool" where
  "ishex c = (c \<in> set ''0123456789abcdefABCDEF'')"

definition unhex :: "char \<Rightarrow> nat" where
  "unhex c =
     (case map_of (zip ''0123456789abcdefABCDEF''
                       [0, 1, 2, 3, 4, 5, 6, 7, 8, 9, 10, 11, 12, 13, 14, 15, 10, 11, 12, 13, 14, 15]) c of
        Some n \<Rightarrow> n | None \<Rightarrow> 0)"

text \<open>\<open>stringContainsCTLByte\<close>: a byte below space, or DEL.\<close>

definition isCTL :: "char \<Rightarrow> bool" where
  "isCTL c = ((of_char c :: nat) < 32 \<or> (of_char c :: nat) = 127)"

text \<open>\<open>getScheme\<close>: \<open>seen\<close> is the prefix read so far.\<close>

fun getScheme :: "string \<Rightarrow> string \<Rightarrow> string \<Rightarrow> string option \<times> string" where
  "getScheme rawURL seen [] = (Some [], rawURL)"
| "getScheme rawURL seen (c # cs) =
     (if isLetter c then getScheme rawURL (seen @ [c]) cs
      else if isDigit c \<or> c = CHR ''+'' \<or> c = CHR ''-'' \<or> c = CHR ''.'' then
        (if seen = [] then (Some [], rawURL) else getScheme rawURL (seen @ [c]) cs)
      else if c = CHR '':'' then
        (if seen = [] then (None, []) else (Some seen, cs))
      else (Some [], rawURL))"

text \<open>\<open>shouldEscape\<close> and \<open>validEncoded\<close> in the mode \<open>encodePath\<close>.\<close>

definition shouldEscape :: "char \<Rightarrow> bool" where
  "shouldEscape c =
     (if isLetter c \<or> isDigit c then False
      else if c \<in> set ''-_.~'' then False
      else if c \<in> set ''$&+,/:;=?@'' then c = CHR ''?''
      else True)"

definition validEncoded :: "string \<Rightarrow> bool" where
  "validEncoded s =
     list_all (\<lambda>c. c \<in> set ''!$&'()*+,;=:@[]%'' \<or> c = CHR 0x27 \<or> \<not> shouldEscape c) s"

definition upperhex :: "nat \<Rightarrow> char" where
  "upperhex n = ''0123456789ABCDEF'' ! n"

definition escape :: "string \<Rightarrow> string" where
  "escape s =
     concat (map (\<lambda>c. if shouldEscape c
                       then [CHR ''%'', upperhex (of_char c div 16), upperhex (of_char c mod 16)]
                       else [c]) s)"

text \<open>\<open>unescape\<close> in the mode \<open>encodePath\<close>: \<open>None\<close> is Go's \<open>EscapeError\<close>.\<close>

fun unescape :: "string \<Rightarrow> string option" where
  "unescape [] = Some []"
| "unescape (c # cs) =
     (if c = CHR ''%'' then
        (case cs of
           h1 # h2 # rest \<Rightarrow>
             if ishex h1 \<and> ishex h2
             then map_option (\<lambda>r. char_of (unhex h1 * 16 + unhex h2) # r) (unescape rest)
             else None
         | _ \<Rightarrow> None)
      else map_option (\<lambda>r. c # r) (unescape cs))"

definition setPath :: "URL \<Rightarrow> string \<Rightarrow> URL option" where
  "setPath u p =
     (case unescape p of
        None \<Rightarrow> None
      | Some path \<Rightarrow>
          Some (u\<lparr>Path := path, RawPath := (if p = escape path then [] else p)\<rparr>))"

definition EscapedPath :: "URL \<Rightarrow> string" where
  "EscapedPath u =
     (if RawPath u \<noteq> [] \<and> validEncoded (RawPath u) \<and> unescape (RawPath u) = Some (Path u)
      then RawPath u
      else if Path u = ''*'' then ''*''
      else escape (Path u))"

text \<open>\<open>validOptionalPort\<close>: empty, or a colon followed by digits.\<close>

definition validOptionalPort :: "string \<Rightarrow> bool" where
  "validOptionalPort port =
     (port = [] \<or> (hd port = CHR '':'' \<and> list_all isDigit (tl port)))"

definition parseHost :: "string \<Rightarrow> string option" where
  "parseHost host =
     (if CHR '':'' \<in> set host
         \<and> \<not> validOptionalPort (CHR '':'' # rev (takeWhile (\<lambda>x. x \<noteq> CHR '':'') (rev host)))
      then None else Some host)"

text \<open>\<open>parse(rawURL, viaRequest = false)\<close>: the URL without its fragment.\<close>

definition parseNoFragment :: "string \<Rightarrow> URL option" where
  "parseNoFragment rawURL =
     (if list_ex isCTL rawURL then None
      else if rawURL = ''*'' then Some (emptyURL\<lparr>Path := ''*''\<rparr>)
      else case getScheme rawURL [] rawURL of
        (None, _) \<Rightarrow> None
      | (Some scheme0, rest0) \<Rightarrow>
          let scheme = ToLower scheme0;
              force = (HasSuffix rest0 ''?'' \<and> count_list rest0 (CHR ''?'') = 1);
              rest = (if force then butlast rest0 else fst (Cut rest0 (CHR ''?'')));
              query = (if force then [] else fst (snd (Cut rest0 (CHR ''?''))));
              u = emptyURL\<lparr>Scheme := scheme, ForceQuery := force, RawQuery := query\<rparr>
          in if \<not> HasPrefix rest ''/'' \<and> scheme \<noteq> [] then Some (u\<lparr>Opaque := rest\<rparr>)
             else if \<not> HasPrefix rest ''/'' \<and> CHR '':'' \<in> set (fst (Cut rest (CHR ''/''))) then None
             else if (scheme \<noteq> [] \<or> \<not> HasPrefix rest ''///'') \<and> HasPrefix rest ''//'' then
               (let auth = takeWhile (\<lambda>x. x \<noteq> CHR ''/'') (drop 2 rest);
                    rest' = dropWhile (\<lambda>x. x \<noteq> CHR ''/'') (drop 2 rest)
                in case parseHost auth of
                     None \<Rightarrow> None
                   | Some h \<Rightarrow> setPath (u\<lparr>Host := h\<rparr>) rest')
             else setPath (u\<lparr>OmitHost := (scheme \<noteq> [] \<and> HasPrefix rest ''/'')\<rparr>) rest)"

text \<open>\<open>url.Parse\<close>: the fragment is cut off first and decoded last.\<close>

definition url_Parse :: "string \<Rightarrow> err + URL" where
  "url_Parse rawURL =
     (case Cut rawURL (CHR ''#'') of
        (u, frag, _) \<Rightarrow>
          (case parseNoFragment u of
             None \<Rightarrow> Inl (ParseError rawURL)
           | Some url \<Rightarrow>
               (if frag = [] then Inr url
                else case unescape frag of
                  None \<Rightarrow> Inl (ParseError rawURL)
                | Some f \<Rightarrow> Inr (url\<lparr>Fragment := f\<rparr>))))"

definition IsAbs :: "URL \<Rightarrow> bool" where
  "IsAbs u = (Scheme u \<noteq> [])"

text \<open>
  \<open>resolvePath\<close>: the reference is put behind the base's directory, then the names
  \<open>.\<close> and \<open>..\<close> are resolved from left to right. The state is the text written so far
  (it starts with the leading slash) and whether the next name is the first one.
\<close>

definition resolveStep :: "string \<times> bool \<Rightarrow> string \<Rightarrow> string \<times> bool" where
  "resolveStep st elem =
     (case st of (dst, first) \<Rightarrow>
        if elem = ''.'' then (dst, False)
        else if elem = ''..'' then
          (let str = tl dst
           in if CHR ''/'' \<in> set str
              then (CHR ''/'' # rev (tl (dropWhile (\<lambda>x. x \<noteq> CHR ''/'') (rev str))), first)
              else (''/'', True))
        else ((if first then dst else dst @ ''/'') @ elem, False))"

definition resolvePath :: "string \<Rightarrow> string \<Rightarrow> string" where
  "resolvePath base ref =
     (let full = (if ref = [] then base
                  else if hd ref \<noteq> CHR ''/'' then dirPart base @ ref
                  else ref)
      in if full = [] then []
         else let elems = splitOn (CHR ''/'') full;
                  dst = fst (foldl resolveStep (''/'', True) elems);
                  r = (if last elems = ''.'' \<or> last elems = ''..'' then dst @ ''/'' else dst)
              in if HasPrefix r ''//'' then tl r else r)"

text \<open>\<open>ResolveReference\<close> ignores a failure of \<open>setPath\<close> and keeps the URL as it was.\<close>

definition setPathOrKeep :: "URL \<Rightarrow> string \<Rightarrow> URL" where
  "setPathOrKeep u p = (case setPath u p of None \<Rightarrow> u | Some u' \<Rightarrow> u')"

definition ResolveReference :: "URL \<Rightarrow> URL \<Rightarrow> URL" where
  "ResolveReference u ref =
     (let url = (if Scheme ref = [] then ref\<lparr>Scheme := Scheme u\<rparr> else ref)
      in if Scheme ref \<noteq> [] \<or> Host ref \<noteq> [] then
           setPathOrKeep url (resolvePath (EscapedPath ref) [])
         else if Opaque ref \<noteq> [] then url\<lparr>Host := [], Path := []\<rparr>
         else
           let url1 = (if Path ref = [] \<and> \<not> ForceQuery ref \<and> RawQuery ref = []
                       then url\<lparr>RawQuery := RawQuery u,
                                Fragment := (if Fragment ref = [] then Fragment u else Fragment ref)\<rparr>
                       else url)
           in if Path ref = [] \<and> Opaque u \<noteq> []
              then url1\<lparr>Opaque := Opaque u, Host := [], Path := []\<rparr>
              else setPathOrKeep (url1\<lparr>Host := Host u\<rparr>)
                     (resolvePath (EscapedPath u) (EscapedPath ref)))"

text \<open>The fragment in its default encoding (\<open>escape\<close> in the mode \<open>encodeFragment\<close>).\<close>

definition escapeFragment :: "string \<Rightarrow> string" where
  "escapeFragment s =
     concat (map (\<lambda>c. if isLetter c \<or> isDigit c \<or> c \<in> set ''-_.~$&+,/:;=?@!()*''
                       then [c]
                       else [CHR ''%'', upperhex (of_char c div 16), upperhex (of_char c mod 16)]) s)"

definition URL_String :: "URL \<Rightarrow> string" where
  "URL_String u =
     (let scheme = (if Scheme u \<noteq> [] then Scheme u @ '':'' else []);
          body =
            (if Opaque u \<noteq> [] then scheme @ Opaque u
             else
               let auth = (if Scheme u = [] \<and> Host u = [] then []
                           else if OmitHost u \<and> Host u = [] then []
                           else (if Host u = [] \<and> Path u = [] then [] else ''//'') @ Host u);
                   path = EscapedPath u;
                   slash = (if path \<noteq> [] \<and> hd path \<noteq> CHR ''/'' \<and> Host u \<noteq> [] then ''/'' else []);
                   front = scheme @ auth @ slash;
                   dot = (if front = [] \<and> CHR '':'' \<in> set (fst (Cut path (CHR ''/'')))
                          then ''./'' else [])
               in front @ dot @ path)
      in body
         @ (if ForceQuery u \<or> RawQuery u \<noteq> [] then CHR ''?'' # RawQuery u else [])
         @ (if Fragment u \<noteq> [] then CHR ''#'' # escapeFragment (Fragment u) else []))"

subsection \<open>Package bufio: a Scanner over lines\<close>

text \<open>
  \<open>bufio.Scanner\<close> with the default split function \<open>ScanLines\<close> yields the text between
  line feeds, a last unterminated line when it is not empty, each without one trailing
  carriage return. It stops with \<open>ErrTooLong\<close> at the first line that does not fit its
  buffer of \<open>MaxScanTokenSize\<close> bytes; the lines before it have been delivered.
\<close>

fun rawLines :: "string \<Rightarrow> string \<Rightarrow> string list" where
  "rawLines cur [] = (if cur = [] then [] else [cur])"
| "rawLines cur (c # cs) = (if c = nl then cur # rawLines [] cs else rawLines (cur @ [c]) cs)"

definition dropCR :: "string \<Rightarrow> string" where
  "dropCR s = (if s \<noteq> [] \<and> last s = CHR 0x0D then butlast s else s)"

definition MaxScanTokenSize :: nat where
  "MaxScanTokenSize = 65536"

definition fits :: "string \<Rightarrow> bool" where
  "fits l = (length l < MaxScanTokenSize)"

text \<open>The lines the loop \<open>for scanner.Scan()\<close> sees, and whether \<open>scanner.Err()\<close> is set after it.\<close>

definition scanLines :: "string \<Rightarrow> string list" where
  "scanLines content = map dropCR (takeWhile fits (rawLines [] content))"

definition scanErr :: "string \<Rightarrow> bool" where
  "scanErr content = list_ex (\<lambda>l. \<not> fits l) (rawLines [] content)"

section \<open>Package filesystem: the mapping from URLs to local paths\<close>

text \<open>
  \<open>FileSystem\<close> holds the output directory, the layout flag and the two Go maps:
  \<open>urlToPath\<close> (the cache of assigned paths) and \<open>pathsInUse\<close>, a \<open>map[string]bool\<close>
  that only ever stores \<open>true\<close> and is therefore the finite set of its keys.
  \<open>GetLocalPath\<close> holds the mutex for its whole body, so a call is one atomic step: it
  takes the state and returns the state it leaves behind.
\<close>

record FileSystem =
  outputDir :: string
  flatten :: bool
  urlToPath :: "string \<rightharpoonup> string"
  pathsInUse :: "string fset"

definition New :: "string \<Rightarrow> bool \<Rightarrow> FileSystem" where
  "New dir flat = \<lparr>outputDir = dir, flatten = flat, urlToPath = Map.empty, pathsInUse = {||}\<rparr>"

text \<open>
  \<open>generateHashFromURL\<close> is the hexadecimal SHA-256 digest of the URL. The digest
  function is the parameter \<open>sha256hex\<close> of everything that hashes; its value always
  has 64 characters, so the slices \<open>hash[:8]\<close> and \<open>hash[:16]\<close> are \<open>take\<close>.
\<close>

definition generateHashFromURL :: "(string \<Rightarrow> string) \<Rightarrow> string \<Rightarrow> string" where
  "generateHashFromURL sha256hex urlStr = sha256hex urlStr"

definition generateFilenameFromURL :: "(string \<Rightarrow> string) \<Rightarrow> string \<Rightarrow> string" where
  "generateFilenameFromURL sha256hex urlStr =
     take 16 (generateHashFromURL sha256hex urlStr) @ ''.bin''"

text \<open>The path the loop of \<open>resolveConflict\<close> tries for a counter value.\<close>

definition counterPath :: "string \<Rightarrow> string \<Rightarrow> string \<Rightarrow> nat \<Rightarrow> string" where
  "counterPath base h8 ext counter = base @ ''_'' @ h8 @ ''_'' @ itoa counter @ ext"

text \<open>
  The loop of \<open>resolveConflict\<close>: while the path is in use, try the next counter.
  Go's \<open>counter\<close> is an \<open>int\<close>; it cannot overflow before the map holds \<open>2^63\<close> paths.
\<close>

function conflictLoop :: "string fset \<Rightarrow> string \<Rightarrow> string \<Rightarrow> string \<Rightarrow> string \<Rightarrow> nat \<Rightarrow> string" where
  "conflictLoop inUse base h8 ext newPath counter =
     (if newPath |\<in>| inUse
      then conflictLoop inUse base h8 ext (counterPath base h8 ext counter) (counter + 1)
      else newPath)"
  by pat_completeness auto

definition resolveConflict :: "(string \<Rightarrow> string) \<Rightarrow> FileSystem \<Rightarrow> string \<Rightarrow> string \<Rightarrow> string" where
  "resolveConflict sha256hex fs originalPath urlStr =
     (let ext = Ext originalPath;
          base = TrimSuffix originalPath ext;
          hash = generateHashFromURL sha256hex urlStr;
          newPath = base @ ''_'' @ take 8 hash @ ext
      in conflictLoop (pathsInUse fs) base (take 8 hash) ext newPath 1)"

text \<open>
  \<open>GetLocalPath\<close>: the cached path when there is one; otherwise the URL is parsed, the
  path is computed for the layout, and both maps are updated. On a parse failure the
  maps are left as they were.
\<close>

definition GetLocalPath :: "(string \<Rightarrow> string) \<Rightarrow> FileSystem \<Rightarrow> string \<Rightarrow> (err + string) \<times> FileSystem" where
  "GetLocalPath sha256hex fs urlStr =
     (case urlToPath fs urlStr of
        Some localPath \<Rightarrow> (Inr localPath, fs)
      | None \<Rightarrow>
          (case url_Parse urlStr of
             Inl e \<Rightarrow> (Inl e, fs)
           | Inr parsedURL \<Rightarrow>
               let localPath =
                     (if flatten fs then
                        (let filename0 = Base (Path parsedURL);
                             filename = (if filename0 = [] \<or> filename0 = ''.'' \<or> filename0 = ''/''
                                         then generateFilenameFromURL sha256hex urlStr
                                         else filename0);
                             joined = Join [outputDir fs, filename]
                         in if joined |\<in>| pathsInUse fs
                            then resolveConflict sha256hex fs joined urlStr
                            else joined)
                      else Join [outputDir fs, TrimPrefix (Path parsedURL) ''/''])
               in (Inr localPath,
                   fs\<lparr>urlToPath := (urlToPath fs)(urlStr \<mapsto> localPath),
                      pathsInUse := finsert localPath (pathsInUse fs)\<rparr>)))"

text \<open>
  \<open>GetRelativePath\<close>: both paths are looked up (or assigned), then the second is
  expressed relative to the directory of the first.
\<close>

definition GetRelativePath ::
    "(string \<Rightarrow> string) \<Rightarrow> FileSystem \<Rightarrow> string \<Rightarrow> string \<Rightarrow> (err + string) \<times> FileSystem" where
  "GetRelativePath sha256hex fs fromURL toURL =
     (case GetLocalPath sha256hex fs fromURL of
        (Inl e, fs1) \<Rightarrow> (Inl e, fs1)
      | (Inr fromPath, fs1) \<Rightarrow>
          (case GetLocalPath sha256hex fs1 toURL of
             (Inl e, fs2) \<Rightarrow> (Inl e, fs2)
           | (Inr toPath, fs2) \<Rightarrow> (Rel (Dir fromPath) toPath, fs2)))"

section \<open>Package downloader: the playlist parser\<close>

record M3U8File =
  Content :: string
  BaseURL :: URL
  URLs :: "string list"
  IsM3U8 :: "string \<rightharpoonup> bool"

definition uriPrefix :: string where
  "uriPrefix = ''URI='' @ [dq]"

definition containsURL :: "string \<Rightarrow> bool" where
  "containsURL line =
     list_ex (Contains line) [''EXT-X-KEY'', ''EXT-X-MEDIA'', ''EXT-X-MAP'', ''EXT-X-I-FRAME-STREAM-INF'']"

function extractURLsFromTag :: "string \<Rightarrow> string list" where
  "extractURLsFromTag line =
     (case Index line uriPrefix of
        None \<Rightarrow> []
      | Some idx \<Rightarrow>
          (let line1 = drop (idx + length uriPrefix) line
           in case Index line1 [dq] of
                None \<Rightarrow> []
              | Some endIdx \<Rightarrow> take endIdx line1 # extractURLsFromTag (drop (endIdx + 1) line1)))"
  by pat_completeness auto

text \<open>\<open>resolveRelativePath\<close>: the fallback for a reference that does not parse.\<close>

definition resolveRelativePath :: "URL \<Rightarrow> string \<Rightarrow> string" where
  "resolveRelativePath base relativePath =
     URL_String (emptyURL\<lparr>Scheme := Scheme base, Host := Host base,
                          Path := Join [Dir (Path base), relativePath]\<rparr>)"

definition resolveURL :: "URL \<Rightarrow> string \<Rightarrow> string" where
  "resolveURL base ref =
     (case url_Parse ref of
        Inl e \<Rightarrow> resolveRelativePath base ref
      | Inr refURL \<Rightarrow>
          if IsAbs refURL then ref else URL_String (ResolveReference base refURL))"

text \<open>What the parser does with one URI value of a tag line.\<close>

definition addTagURL :: "URL \<Rightarrow> M3U8File \<Rightarrow> string \<Rightarrow> M3U8File" where
  "addTagURL baseURL m u =
     (let resolved = resolveURL baseURL u
      in m\<lparr>URLs := URLs m @ [resolved],
           IsM3U8 := (if HasSuffix u ''.m3u8'' then IsM3U8 m else (IsM3U8 m)(resolved \<mapsto> False))\<rparr>)"

text \<open>The body of the scanning loop of \<open>ParseM3U8\<close>.\<close>

definition parseLine :: "URL \<Rightarrow> M3U8File \<Rightarrow> string \<Rightarrow> M3U8File" where
  "parseLine baseURL m text =
     (let line = TrimSpace text
      in if line = [] \<or> (HasPrefix line ''#'' \<and> \<not> containsURL line) then m
         else if HasPrefix line ''#'' then foldl (addTagURL baseURL) m (extractURLsFromTag line)
         else
           let resolved = resolveURL baseURL line
           in m\<lparr>URLs := URLs m @ [resolved],
                IsM3U8 := (IsM3U8 m)(resolved \<mapsto>
                   (HasSuffix line ''.m3u8'' \<or> Contains line ''.m3u8?''))\<rparr>)"

definition ParseM3U8 :: "string \<Rightarrow> URL \<Rightarrow> err + M3U8File" where
  "ParseM3U8 content baseURL =
     (let m = foldl (parseLine baseURL)
                \<lparr>Content = content, BaseURL = baseURL, URLs = [], IsM3U8 = Map.empty\<rparr>
                (scanLines content)
      in if scanErr content then Inl ErrTooLong else Inr m)"

section \<open>Package downloader: the rewriter\<close>

text \<open>A Go call either panics or returns.\<close>

datatype 'a go = Panic | Returns 'a

definition containsURI :: "string \<Rightarrow> bool" where
  "containsURI line = Contains line uriPrefix"

text \<open>\<open>mustParseURL\<close> panics when \<open>url.Parse\<close> fails.\<close>

definition mustParseURL :: "string \<Rightarrow> URL go" where
  "mustParseURL urlStr = (case url_Parse urlStr of Inl e \<Rightarrow> Panic | Inr u \<Rightarrow> Returns u)"

text \<open>
  The loop of \<open>rewriteTagLine\<close> on the current \<open>result\<close>. It leaves at the first URI
  that maps to a relative path; on a mapping failure it cuts \<open>result\<close> down to the text
  from the closing quote on and goes round again.
\<close>

function rewriteTagLoop ::
    "(string \<Rightarrow> string) \<Rightarrow> string \<Rightarrow> FileSystem \<Rightarrow> string \<Rightarrow> (string \<times> FileSystem) go" where
  "rewriteTagLoop sha256hex sourceURL fs result =
     (case Index result uriPrefix of
        None \<Rightarrow> Returns (result, fs)
      | Some uriStart \<Rightarrow>
          (let uriValueStart = uriStart + length uriPrefix
           in case Index (drop uriValueStart result) [dq] of
                None \<Rightarrow> Returns (result, fs)
              | Some uriEnd \<Rightarrow>
                  (case mustParseURL sourceURL of
                     Panic \<Rightarrow> Panic
                   | Returns base \<Rightarrow>
                       (let value0 = take uriEnd (drop uriValueStart result);
                            absoluteURL = (case ParseM3U8 [] base of
                                             Inl e \<Rightarrow> value0
                                           | Inr m3u8File \<Rightarrow> resolveURL (BaseURL m3u8File) value0)
                        in case GetRelativePath sha256hex fs sourceURL absoluteURL of
                             (Inl e, fs') \<Rightarrow>
                               rewriteTagLoop sha256hex sourceURL fs' (drop (uriValueStart + uriEnd) result)
                           | (Inr relativePath, fs') \<Rightarrow>
                               Returns (take uriValueStart result @ relativePath
                                          @ drop (uriValueStart + uriEnd) result, fs')))))"
  by pat_completeness auto

text \<open>\<open>rewriteTagLine\<close> returns the line and an error that is \<open>nil\<close> on every path.\<close>

definition rewriteTagLine ::
    "(string \<Rightarrow> string) \<Rightarrow> string \<Rightarrow> string \<Rightarrow> FileSystem \<Rightarrow> ((string \<times> err option) \<times> FileSystem) go" where
  "rewriteTagLine sha256hex line sourceURL fs =
     (case rewriteTagLoop sha256hex sourceURL fs line of
        Panic \<Rightarrow> Panic
      | Returns (result, fs') \<Rightarrow> Returns ((result, None), fs'))"

definition rewriteSegmentLine ::
    "(string \<Rightarrow> string) \<Rightarrow> string \<Rightarrow> string \<Rightarrow> FileSystem \<Rightarrow> (string \<times> FileSystem) go" where
  "rewriteSegmentLine sha256hex line sourceURL fs =
     (case mustParseURL sourceURL of
        Panic \<Rightarrow> Panic
      | Returns base \<Rightarrow>
          (case ParseM3U8 [] base of
             Inl e \<Rightarrow> Returns (line, fs)
           | Inr m3u8File \<Rightarrow>
               (case GetRelativePath sha256hex fs sourceURL (resolveURL (BaseURL m3u8File) line) of
                  (Inl e, fs') \<Rightarrow> Returns (line, fs')
                | (Inr relativePath, fs') \<Rightarrow> Returns (relativePath, fs'))))"

text \<open>The body of the scanning loop of \<open>RewriteM3U8URLs\<close>: the line it writes for a line it read.\<close>

definition rewriteLine ::
    "(string \<Rightarrow> string) \<Rightarrow> string \<Rightarrow> FileSystem \<Rightarrow> string \<Rightarrow> (string \<times> FileSystem) go" where
  "rewriteLine sha256hex sourceURL fs line =
     (if HasPrefix line ''#'' then
        (if containsURI line then
           (case rewriteTagLine sha256hex line sourceURL fs of
              Panic \<Rightarrow> Panic
            | Returns ((rewritten, e), fs') \<Rightarrow>
                Returns ((case e of Some x \<Rightarrow> line | None \<Rightarrow> rewritten), fs'))
         else Returns (line, fs))
      else if line \<noteq> [] \<and> \<not> HasPrefix line ''#'' then rewriteSegmentLine sha256hex line sourceURL fs
      else Returns (line, fs))"

text \<open>The loop: each rewritten line is written to the output buffer, then a line feed.\<close>

fun rewriteLoop ::
    "(string \<Rightarrow> string) \<Rightarrow> string \<Rightarrow> string list \<Rightarrow> string \<Rightarrow> FileSystem \<Rightarrow> (string \<times> FileSystem) go" where
  "rewriteLoop sha256hex sourceURL [] output fs = Returns (output, fs)"
| "rewriteLoop sha256hex sourceURL (line # rest) output fs =
     (case rewriteLine sha256hex sourceURL fs line of
        Panic \<Rightarrow> Panic
      | Returns (rewrittenLine, fs') \<Rightarrow>
          rewriteLoop sha256hex sourceURL rest (output @ rewrittenLine @ [nl]) fs')"

text \<open>
  \<open>RewriteM3U8URLs\<close> returns the rewritten bytes, or the scanner's error after the
  loop; the maps of the shared \<open>FileSystem\<close> keep what the loop did to them either way.
\<close>

definition RewriteM3U8URLs ::
    "(string \<Rightarrow> string) \<Rightarrow> string \<Rightarrow> string \<Rightarrow> FileSystem \<Rightarrow> ((err + string) \<times> FileSystem) go" where
  "RewriteM3U8URLs sha256hex content sourceURL fs =
     (case rewriteLoop sha256hex sourceURL (scanLines content) [] fs of
        Panic \<Rightarrow> Panic
      | Returns (output, fs') \<Rightarrow>
          Returns (if scanErr content then Inl ErrTooLong else Inr output, fs'))"

section \<open>Package downloader: the filter and the visited set\<close>

record Downloader =
  includeExts :: "string list"
  excludeExts :: "string list"

definition shouldDownload :: "Downloader \<Rightarrow> string \<Rightarrow> bool" where
  "shouldDownload d urlStr =
     (let ext0 = ToLower (Ext urlStr);
          ext = (case Index ext0 ''?'' of Some idx \<Rightarrow> take idx ext0 | None \<Rightarrow> ext0)
      in if list_ex (\<lambda>excludeExt. ext = excludeExt \<or> ext = ''.'' @ excludeExt) (excludeExts d)
         then False
         else if includeExts d = [] then True
         else list_ex (\<lambda>includeExt. ext = includeExt \<or> ext = ''.'' @ includeExt) (includeExts d))"

definition filterURLs :: "Downloader \<Rightarrow> string list \<Rightarrow> string list" where
  "filterURLs d urls = filter (shouldDownload d) urls"


text \<open>
  \<open>downloadURLs\<close> starts \<open>concurrency\<close> workers that take URLs from a channel and call
  \<open>downloadURL\<close> for each. For a URL that is not a playlist, \<open>downloadURL\<close> calls
  \<open>isVisited\<close>, then \<open>markVisited\<close>, then the fetcher; \<open>downloadM3U8\<close> starts the same
  way. \<open>isVisited\<close> and \<open>markVisited\<close> each take and release \<open>visitedLock\<close>, so each is
  one atomic step, and the steps of different workers interleave in any order.

  A worker is idle, or stands before one of the three calls with its URL.
\<close>

datatype worker = Idle | BeforeIsVisited string | BeforeMarkVisited string | BeforeFetch string

record crawl =
  urlChan :: "string list"
  visited :: "string set"
  fetches :: "string list"
  workers :: "worker list"

definition startCrawl :: "nat \<Rightarrow> string list \<Rightarrow> crawl" where
  "startCrawl concurrency urls =
     \<lparr>urlChan = urls, visited = {}, fetches = [], workers = replicate concurrency Idle\<rparr>"

inductive step :: "crawl \<Rightarrow> crawl \<Rightarrow> bool" where
  receive:
    "i < length (workers s) \<Longrightarrow> workers s ! i = Idle \<Longrightarrow> urlChan s = u # rest \<Longrightarrow>
       step s (s\<lparr>urlChan := rest, workers := (workers s)[i := BeforeIsVisited u]\<rparr>)"
| isVisited_true:
    "i < length (workers s) \<Longrightarrow> workers s ! i = BeforeIsVisited u \<Longrightarrow> u \<in> visited s \<Longrightarrow>
       step s (s\<lparr>workers := (workers s)[i := Idle]\<rparr>)"
| isVisited_false:
    "i < length (workers s) \<Longrightarrow> workers s ! i = BeforeIsVisited u \<Longrightarrow> u \<notin> visited s \<Longrightarrow>
       step s (s\<lparr>workers := (workers s)[i := BeforeMarkVisited u]\<rparr>)"
| markVisited:
    "i < length (workers s) \<Longrightarrow> workers s ! i = BeforeMarkVisited u \<Longrightarrow>
       step s (s\<lparr>visited := insert u (visited s), workers := (workers s)[i := BeforeFetch u]\<rparr>)"
| fetch:
    "i < length (workers s) \<Longrightarrow> workers s ! i = BeforeFetch u \<Longrightarrow>
       step s (s\<lparr>fetches := fetches s @ [u], workers := (workers s)[i := Idle]\<rparr>)"

section \<open>Notions used in the statements\<close>

text \<open>
  Any number of callers, for any URLs, in any order: the mutex makes the calls of
  \<open>GetLocalPath\<close> a sequence, and \<open>GetLocalPaths\<close> runs such a sequence.
\<close>

definition GetLocalPaths :: "(string \<Rightarrow> string) \<Rightarrow> FileSystem \<Rightarrow> string list \<Rightarrow> FileSystem" where
  "GetLocalPaths sha256hex fs urls = foldl (\<lambda>s u. snd (GetLocalPath sha256hex s u)) fs urls"

text \<open>
  The invariant of the flattened layout: no path is cached for two URLs, and every
  cached path is recorded as in use.
\<close>

definition claimed :: "FileSystem \<Rightarrow> bool" where
  "claimed fs =
     (inj_on (urlToPath fs) (dom (urlToPath fs)) \<and> ran (urlToPath fs) \<subseteq> fset (pathsInUse fs))"


definition closedURI :: "string \<Rightarrow> bool" where
  "closedURI line =
     (case Index line uriPrefix of
        None \<Rightarrow> False
      | Some uriStart \<Rightarrow> Index (drop (uriStart + length uriPrefix) line) [dq] \<noteq> None)"

definition needsBase :: "string \<Rightarrow> bool" where
  "needsBase line = (if HasPrefix line ''#'' then closedURI line else line \<noteq> [])"




text \<open>The references that the parser's loop takes from one line, in order.\<close>

definition lineRefs :: "URL \<Rightarrow> string \<Rightarrow> string list" where
  "lineRefs baseURL text =
     (let line = TrimSpace text
      in if line = [] \<or> (HasPrefix line ''#'' \<and> \<not> containsURL line) then []
         else if HasPrefix line ''#'' then map (resolveURL baseURL) (extractURLsFromTag line)
         else [resolveURL baseURL line])"

text \<open>
  With a single worker the crawl keeps this invariant: no URL is fetched twice, every
  fetched URL is marked, and the worker stands before \<open>markVisited\<close> only with a URL
  that is not marked, before the fetcher only with one that is marked and not fetched.
\<close>

definition oneWorkerInv :: "crawl \<Rightarrow> bool" where
  "oneWorkerInv s =
     (distinct (fetches s) \<and> set (fetches s) \<subseteq> visited s
      \<and> (case workers s of
            [BeforeIsVisited u] \<Rightarrow> True
          | [BeforeMarkVisited u] \<Rightarrow> u \<notin> visited s
          | [BeforeFetch u] \<Rightarrow> u \<in> visited s \<and> u \<notin> set (fetches s)
          | [Idle] \<Rightarrow> True
          | _ \<Rightarrow> False))"

text \<open>
  The SHA-256 digests of the URLs that the examples hash (as \<open>sha256sum\<close> prints them);
  it stands for the digest function where an example needs one.
\<close>

definition exampleSha256 :: "string \<Rightarrow> string" where
  "exampleSha256 u =
     (case map_of
        [(''https://a.example.com/seg.ts'',
            ''e8f168f3149daa10a65d682d4fc56678f07f4c7c6e4074dbde149378591ca96f''),
         (''https://b.example.com/seg.ts'',
            ''7f7322c0433e2db1775f6c42cff8944d3bbf52031453a73c7de9de6da7a2bc8c''),
         (''https://c.example.com/seg.ts'',
            ''537bb4d424faef1d56154b76d28a1c8e6cfe5b2c10bff7f3645200265c81d19c'')] u of
        Some d \<Rightarrow> d
      | None \<Rightarrow> replicate 64 (CHR ''0''))"

text \<open>The base URL of the resolver's examples, as \<open>url.Parse\<close> returns it.\<close>

definition exampleBase :: URL where
  "exampleBase = emptyURL\<lparr>Scheme := ''https'', Host := ''example.com'', Path := ''/path/playlist.m3u8''\<rparr>"

section \<open>Termination of the loops\<close>

text \<open>
  The loop of \<open>resolveConflict\<close> ends because the paths it tries are pairwise distinct
  (the decimal numerals are) and only finitely many paths are in use.
\<close>

lemma itoa_nonempty: "itoa n \<noteq> []"
  by (subst itoa.simps) simp

lemma digit_inj: "a < 10 \<Longrightarrow> b < 10 \<Longrightarrow> ''0123456789'' ! a = ''0123456789'' ! b \<Longrightarrow> a = (b::nat)"
proof -
  assume a: "a < 10" and b: "b < 10" and e: "''0123456789'' ! a = ''0123456789'' ! b"
  have d: "distinct ''0123456789''" by simp
  have "a < length ''0123456789''" "b < length ''0123456789''" using a b by simp_all
  with d e show "a = b" by (simp only: nth_eq_iff_index_eq)
qed

lemma itoa_inj: "itoa n = itoa m \<Longrightarrow> n = m"
proof (induction n arbitrary: m rule: itoa.induct)
  case (1 n)
  show ?case
  proof (cases "n < 10")
    case small: True
    show ?thesis
    proof (cases "m < 10")
      case True
      with small "1.prems" show ?thesis
        by (simp add: itoa.simps [of n] itoa.simps [of m] digit_inj)
    next
      case False
      with small "1.prems" itoa_nonempty [of "m div 10"] show ?thesis
        by (simp add: itoa.simps [of n] itoa.simps [of m])
    qed
  next
    case big: False
    show ?thesis
    proof (cases "m < 10")
      case True
      with big "1.prems" itoa_nonempty [of "n div 10"] show ?thesis
        by (simp add: itoa.simps [of n] itoa.simps [of m])
    next
      case False
      with big "1.prems"
      have e: "itoa (n div 10) = itoa (m div 10)"
        and d: "''0123456789'' ! (n mod 10) = ''0123456789'' ! (m mod 10)"
        by (simp_all add: itoa.simps [of n] itoa.simps [of m])
      from "1.IH" [OF big e] have q: "n div 10 = m div 10" .
      from d have r: "n mod 10 = m mod 10" by (intro digit_inj) simp_all
      from q r show ?thesis by (metis div_mult_mod_eq)
    qed
  qed
qed

lemma counterPath_inj: "inj (counterPath base h8 ext)"
  by (rule injI) (simp add: counterPath_def itoa_inj)

lemma counterPath_finite: "finite {k. counterPath base h8 ext k |\<in>| inUse}"
proof -
  have "finite (counterPath base h8 ext -` fset inUse)"
    by (rule finite_vimageI [OF _ counterPath_inj]) simp
  then show ?thesis by (simp add: vimage_def)
qed

termination conflictLoop
proof (relation "measure (\<lambda>(inUse, base, h8, ext, newPath, counter).
          card {k. counter \<le> k \<and> counterPath base h8 ext k |\<in>| inUse}
          + (if newPath |\<in>| inUse then 1 else 0))")
  show "wf (measure (\<lambda>(inUse, base, h8, ext, newPath, counter).
          card {k. counter \<le> k \<and> counterPath base h8 ext k |\<in>| inUse}
          + (if newPath |\<in>| inUse then 1 else 0)))"
    by simp
next
  fix inUse :: "string fset" and base h8 ext newPath :: string and counter :: nat
  assume used: "newPath |\<in>| inUse"
  let ?A = "\<lambda>c. {k. c \<le> k \<and> counterPath base h8 ext k |\<in>| inUse}"
  have fin: "finite (?A counter)"
    by (rule finite_subset [OF _ counterPath_finite [of base h8 ext inUse]]) auto
  have step: "card (?A (counter + 1))
        + (if counterPath base h8 ext counter |\<in>| inUse then 1 else 0) = card (?A counter)"
  proof (cases "counterPath base h8 ext counter |\<in>| inUse")
    case True
    have "?A counter = insert counter (?A (counter + 1))"
      using True by (auto simp: le_Suc_eq)
    moreover have "counter \<notin> ?A (counter + 1)" by simp
    moreover have "finite (?A (counter + 1))"
      by (rule finite_subset [OF _ fin]) auto
    ultimately show ?thesis using True by simp
  next
    case False
    have "?A counter = ?A (counter + 1)"
    proof (rule set_eqI)
      fix k
      show "k \<in> ?A counter \<longleftrightarrow> k \<in> ?A (counter + 1)"
        using False by (cases "k = counter") auto
    qed
    then show ?thesis using False by simp
  qed
  show "((inUse, base, h8, ext, counterPath base h8 ext counter, counter + 1),
         (inUse, base, h8, ext, newPath, counter))
        \<in> measure (\<lambda>(inUse, base, h8, ext, newPath, counter).
          card {k. counter \<le> k \<and> counterPath base h8 ext k |\<in>| inUse}
          + (if newPath |\<in>| inUse then 1 else 0))"
    using step used by simp
qed

declare conflictLoop.simps [simp del]

text \<open>The loops over a tag line end because the line gets shorter with every round.\<close>

lemma Index_Nil_uriPrefix: "Index [] uriPrefix = None"
  by (simp add: uriPrefix_def)

termination extractURLsFromTag
proof (relation "measure length")
  show "wf (measure length)" by simp
next
  fix line :: string and idx line1 endIdx
  assume i: "Index line uriPrefix = Some idx"
    and l: "line1 = drop (idx + length uriPrefix) line"
  from i have "line \<noteq> []" using Index_Nil_uriPrefix by auto
  then show "(drop (endIdx + 1) line1, line) \<in> measure length"
    using l by simp
qed

declare extractURLsFromTag.simps [simp del]

termination rewriteTagLoop
proof (relation "measure (\<lambda>(sha256hex, sourceURL, fs, result). length result)")
  show "wf (measure (\<lambda>(sha256hex, sourceURL, fs, result). length (result :: string)))" by simp
next
  fix sha256hex :: "string \<Rightarrow> string" and sourceURL result :: string and fs fs' :: FileSystem
    and uriStart uriValueStart uriEnd :: nat
  assume i: "Index result uriPrefix = Some uriStart"
    and v: "uriValueStart = uriStart + length uriPrefix"
  from i have "result \<noteq> []" using Index_Nil_uriPrefix by auto
  moreover have "0 < uriValueStart" using v by (simp add: uriPrefix_def)
  ultimately show "((sha256hex, sourceURL, fs', drop (uriValueStart + uriEnd) result),
                    (sha256hex, sourceURL, fs, result))
                   \<in> measure (\<lambda>(sha256hex, sourceURL, fs, result). length result)"
    by simp
qed

declare rewriteTagLoop.simps [simp del]

section \<open>Evaluation\<close>

text \<open>The equations that evaluate the model on a concrete input.\<close>

lemmas go_eval =
  HasPrefix_def HasSuffix_def Contains_def TrimPrefix_def TrimSuffix_def TrimSpace_def isSpace_def
  ToLower_def lowerChar_def Cut_def itoa.simps nl_def dq_def Let_def
  Clean_def cleanStep_def Join_def dirPart_def Dir_def Base_def Ext_def names_def Rel_def
  emptyURL_def isLetter_def isDigit_def ishex_def unhex_def isCTL_def shouldEscape_def
  validEncoded_def upperhex_def escape_def setPath_def EscapedPath_def validOptionalPort_def
  parseHost_def parseNoFragment_def url_Parse_def IsAbs_def resolveStep_def resolvePath_def
  setPathOrKeep_def ResolveReference_def escapeFragment_def URL_String_def
  dropCR_def MaxScanTokenSize_def fits_def scanLines_def scanErr_def
  New_def generateHashFromURL_def generateFilenameFromURL_def counterPath_def conflictLoop.simps
  resolveConflict_def GetLocalPath_def GetRelativePath_def
  uriPrefix_def containsURL_def extractURLsFromTag.simps resolveRelativePath_def resolveURL_def
  addTagURL_def parseLine_def ParseM3U8_def
  containsURI_def mustParseURL_def rewriteTagLoop.simps rewriteTagLine_def rewriteSegmentLine_def
  rewriteLine_def RewriteM3U8URLs_def shouldDownload_def filterURLs_def

section \<open>Path assignment\<close>

lemma GetLocalPath_cached:
  "urlToPath fs u = Some p \<Longrightarrow> GetLocalPath H fs u = (Inr p, fs)"
  by (simp add: GetLocalPath_def)

lemma GetLocalPath_keeps:
  "urlToPath fs v = Some p \<Longrightarrow> urlToPath (snd (GetLocalPath H fs u)) v = Some p"
  by (auto simp: GetLocalPath_def Let_def split: option.splits sum.splits)

lemma GetLocalPath_records:
  "fst (GetLocalPath H fs u) = Inr p \<Longrightarrow> urlToPath (snd (GetLocalPath H fs u)) u = Some p"
  by (auto simp: GetLocalPath_def Let_def split: option.splits sum.splits)

lemma GetLocalPath_layout:
  "outputDir (snd (GetLocalPath H fs u)) = outputDir fs \<and> flatten (snd (GetLocalPath H fs u)) = flatten fs"
  by (auto simp: GetLocalPath_def Let_def split: option.splits sum.splits)

lemma GetLocalPath_error:
  "fst (GetLocalPath H fs u) = Inl e \<Longrightarrow>
     urlToPath fs u = None \<and> url_Parse u = Inl e \<and> snd (GetLocalPath H fs u) = fs"
  by (auto simp: GetLocalPath_def Let_def split: option.splits sum.splits)

lemma GetLocalPath_unparsed:
  "url_Parse u = Inl e \<Longrightarrow> urlToPath fs u = None \<Longrightarrow>
     urlToPath (snd (GetLocalPath H fs v)) u = None"
  by (auto simp: GetLocalPath_def Let_def split: option.splits sum.splits)

lemma GetLocalPath_fails:
  "url_Parse u = Inl e \<Longrightarrow> urlToPath fs u = None \<Longrightarrow> GetLocalPath H fs u = (Inl e, fs)"
  by (simp add: GetLocalPath_def)

lemma GetLocalPaths_keeps:
  "urlToPath fs v = Some p \<Longrightarrow> urlToPath (GetLocalPaths H fs us) v = Some p"
  by (induction us arbitrary: fs) (simp_all add: GetLocalPaths_def GetLocalPath_keeps)

lemma GetLocalPaths_unparsed:
  "url_Parse u = Inl e \<Longrightarrow> urlToPath fs u = None \<Longrightarrow> urlToPath (GetLocalPaths H fs us) u = None"
  by (induction us arbitrary: fs) (simp_all add: GetLocalPaths_def GetLocalPath_unparsed)

lemma conflictLoop_first_free:
  "conflictLoop inUse base h8 ext newPath counter =
     (if newPath |\<in>| inUse
      then counterPath base h8 ext (LEAST k. counter \<le> k \<and> counterPath base h8 ext k |\<notin>| inUse)
      else newPath)"
proof (induction inUse base h8 ext newPath counter rule: conflictLoop.induct)
  case (1 inUse base h8 ext newPath counter)
  show ?case
  proof (cases "newPath |\<in>| inUse")
    case False
    then show ?thesis by (simp add: conflictLoop.simps [of inUse base h8 ext newPath])
  next
    case True
    note IH = "1.IH" [OF True]
    show ?thesis
    proof (cases "counterPath base h8 ext counter |\<in>| inUse")
      case False
      have "(LEAST k. counter \<le> k \<and> counterPath base h8 ext k |\<notin>| inUse) = counter"
        by (rule Least_equality) (use False in auto)
      with True False IH show ?thesis
        by (simp add: conflictLoop.simps [of inUse base h8 ext newPath])
    next
      case used: True
      have "(\<lambda>k. counter \<le> k \<and> counterPath base h8 ext k |\<notin>| inUse)
            = (\<lambda>k. counter + 1 \<le> k \<and> counterPath base h8 ext k |\<notin>| inUse)"
      proof (rule ext)
        fix k
        show "(counter \<le> k \<and> counterPath base h8 ext k |\<notin>| inUse)
              = (counter + 1 \<le> k \<and> counterPath base h8 ext k |\<notin>| inUse)"
          using used by (cases "k = counter") auto
      qed
      with True used IH show ?thesis
        by (simp add: conflictLoop.simps [of inUse base h8 ext newPath])
    qed
  qed
qed

lemma counterPath_free_exists: "\<exists>k\<ge>c. counterPath base h8 ext k |\<notin>| inUse"
proof (rule ccontr)
  assume "\<not> (\<exists>k\<ge>c. counterPath base h8 ext k |\<notin>| inUse)"
  then have "{k. c \<le> k} \<subseteq> {k. counterPath base h8 ext k |\<in>| inUse}" by auto
  then have "finite {k. c \<le> k}"
    by (rule finite_subset) (rule counterPath_finite)
  moreover have "infinite {k. c \<le> k}"
    by (metis (mono_tags, lifting) finite_nat_set_iff_bounded_le mem_Collect_eq nat_le_linear not_less_eq_eq order_refl)
  ultimately show False by simp
qed

lemma conflictLoop_free: "conflictLoop inUse base h8 ext newPath counter |\<notin>| inUse"
proof (cases "newPath |\<in>| inUse")
  case False
  then show ?thesis by (simp add: conflictLoop_first_free)
next
  case True
  obtain k where k: "counter \<le> k \<and> counterPath base h8 ext k |\<notin>| inUse"
    using counterPath_free_exists [of counter base h8 ext inUse] by auto
  have "counter \<le> (LEAST k. counter \<le> k \<and> counterPath base h8 ext k |\<notin>| inUse)
        \<and> counterPath base h8 ext (LEAST k. counter \<le> k \<and> counterPath base h8 ext k |\<notin>| inUse) |\<notin>| inUse"
    by (rule LeastI [of "\<lambda>k. counter \<le> k \<and> counterPath base h8 ext k |\<notin>| inUse", OF k])
  with True show ?thesis by (simp add: conflictLoop_first_free)
qed

lemma resolveConflict_free: "resolveConflict H fs originalPath u |\<notin>| pathsInUse fs"
  by (simp add: resolveConflict_def Let_def conflictLoop_free)

lemma GetLocalPath_claimed:
  assumes "claimed fs" and "flatten fs"
  shows "claimed (snd (GetLocalPath H fs u))"
proof (cases "urlToPath fs u")
  case (Some p)
  with assms show ?thesis by (simp add: GetLocalPath_def)
next
  case None
  show ?thesis
  proof (cases "url_Parse u")
    case (Inl e)
    with None assms show ?thesis by (simp add: GetLocalPath_def)
  next
    case (Inr parsed)
    obtain p where p: "GetLocalPath H fs u =
        (Inr p, fs\<lparr>urlToPath := (urlToPath fs)(u \<mapsto> p), pathsInUse := finsert p (pathsInUse fs)\<rparr>)"
      and free: "p |\<notin>| pathsInUse fs"
      using None Inr assms(2) resolveConflict_free
      by (auto simp: GetLocalPath_def Let_def)
    from assms(1) have inj: "inj_on (urlToPath fs) (dom (urlToPath fs))"
      and sub: "ran (urlToPath fs) \<subseteq> fset (pathsInUse fs)" by (simp_all add: claimed_def)
    from free sub have fresh: "p \<notin> ran (urlToPath fs)" by auto
    have "inj_on ((urlToPath fs)(u \<mapsto> p)) (dom ((urlToPath fs)(u \<mapsto> p)))"
    proof (rule inj_onI)
      fix a b
      assume a: "a \<in> dom ((urlToPath fs)(u \<mapsto> p))" and b: "b \<in> dom ((urlToPath fs)(u \<mapsto> p))"
        and e: "((urlToPath fs)(u \<mapsto> p)) a = ((urlToPath fs)(u \<mapsto> p)) b"
      show "a = b"
      proof (cases "a = u"; cases "b = u")
        assume "a \<noteq> u" "b \<noteq> u"
        with a b e inj show ?thesis by (auto dest: inj_onD)
      next
        assume "a = u" "b \<noteq> u"
        with e b fresh show ?thesis by (auto simp: ran_def)
      next
        assume "a \<noteq> u" "b = u"
        with e a fresh show ?thesis by (auto simp: ran_def)
      qed simp
    qed
    moreover have "ran ((urlToPath fs)(u \<mapsto> p)) \<subseteq> fset (finsert p (pathsInUse fs))"
      using sub None by (auto simp: ran_def split: if_splits)
    ultimately show ?thesis using p by (simp add: claimed_def)
  qed
qed

lemma GetLocalPaths_claimed:
  "claimed fs \<Longrightarrow> flatten fs \<Longrightarrow> claimed (GetLocalPaths H fs us)"
proof (induction us arbitrary: fs)
  case Nil
  then show ?case by (simp add: GetLocalPaths_def)
next
  case (Cons u us)
  have "claimed (snd (GetLocalPath H fs u))" "flatten (snd (GetLocalPath H fs u))"
    using Cons.prems by (simp_all add: GetLocalPath_claimed GetLocalPath_layout)
  from Cons.IH [OF this] show ?case by (simp add: GetLocalPaths_def)
qed

lemma New_claimed: "claimed (New dir flat)"
  by (simp add: claimed_def New_def)

lemma GetLocalPaths_flatten: "flatten (GetLocalPaths H fs us) = flatten fs"
  by (induction us arbitrary: fs) (simp_all add: GetLocalPaths_def GetLocalPath_layout)

lemma GetLocalPath_fresh_free:
  "flatten fs \<Longrightarrow> urlToPath fs u = None \<Longrightarrow> fst (GetLocalPath H fs u) = Inr p \<Longrightarrow>
     p |\<notin>| pathsInUse fs"
  using resolveConflict_free [of H fs]
  by (auto simp: GetLocalPath_def Let_def split: sum.splits if_splits)

text \<open>
  C7. Path assignment is idempotent. Whatever the first call of \<open>GetLocalPath\<close> for a
  URL returns, every later call for that URL returns the same, after any sequence of
  calls for this or other URLs in between, and leaves the maps as they are; a path that
  was returned is the one cached for the URL.
\<close>

theorem GetLocalPath_idempotent:
  assumes first: "GetLocalPath H fs u = (r, fs1)"
    and later: "fs2 = GetLocalPaths H fs1 us"
  shows "GetLocalPath H fs2 u = (r, fs2)
         \<and> (\<forall>p. r = Inr p \<longrightarrow> urlToPath fs1 u = Some p \<and> urlToPath fs2 u = Some p)"
proof (cases r)
  case (Inr p)
  from first Inr have "urlToPath fs1 u = Some p"
    using GetLocalPath_records [of H fs u p] by simp
  moreover from this later have "urlToPath fs2 u = Some p"
    by (simp add: GetLocalPaths_keeps)
  ultimately show ?thesis using Inr by (simp add: GetLocalPath_cached)
next
  case (Inl e)
  from first Inl have e: "urlToPath fs u = None" "url_Parse u = Inl e" "fs1 = fs"
    using GetLocalPath_error [of H fs u e] by simp_all
  with later have "urlToPath fs2 u = None"
    by (simp add: GetLocalPaths_unparsed)
  with e Inl show ?thesis by (simp add: GetLocalPath_fails)
qed

theorem GetLocalPath_idempotent_witness:
  "GetLocalPath exampleSha256
     (GetLocalPaths exampleSha256
        (snd (GetLocalPath exampleSha256 (New ''out'' True) ''https://a.example.com/seg.ts''))
        [''https://b.example.com/seg.ts'', ''https://a.example.com/seg.ts''])
     ''https://a.example.com/seg.ts''
   = (Inr ''out/seg.ts'',
      GetLocalPaths exampleSha256
        (snd (GetLocalPath exampleSha256 (New ''out'' True) ''https://a.example.com/seg.ts''))
        [''https://b.example.com/seg.ts'', ''https://a.example.com/seg.ts''])"
proof -
  have first: "GetLocalPath exampleSha256 (New ''out'' True) ''https://a.example.com/seg.ts''
      = (Inr ''out/seg.ts'',
         snd (GetLocalPath exampleSha256 (New ''out'' True) ''https://a.example.com/seg.ts''))"
    by (simp add: go_eval)
  from GetLocalPath_idempotent [OF first refl] show ?thesis by simp
qed

text \<open>
  C2, as stated, fails in the hierarchical layout: \<open>GetLocalPath\<close> resolves conflicts
  only when \<open>flatten\<close> is set, so two URLs with the same path on different hosts are
  given the same local path.
\<close>

theorem hierarchical_paths_collide:
  "''https://a.example.com/seg.ts'' \<noteq> ''https://b.example.com/seg.ts''
   \<and> fst (GetLocalPath exampleSha256 (New ''out'' False) ''https://a.example.com/seg.ts'')
       = Inr ''out/seg.ts''
   \<and> fst (GetLocalPath exampleSha256
            (snd (GetLocalPath exampleSha256 (New ''out'' False) ''https://a.example.com/seg.ts''))
            ''https://b.example.com/seg.ts'')
       = Inr ''out/seg.ts''"
  by (simp add: go_eval)

text \<open>
  C2, amended. In the flattened layout no two distinct URLs hold the same path, in any
  state reached from \<open>New\<close> by calls of \<open>GetLocalPath\<close>; the path assigned to a URL
  without one is not in use before; and \<open>resolveConflict\<close> returns the original path
  with the first eight characters of the URL's hash put before the extension when that
  is free, and otherwise that path with the least counter from 1 on whose path is free.
  In the hierarchical layout the path of a URL without one is the output directory
  joined with the URL's path, whatever is in use.
\<close>

theorem flattened_paths_distinct:
  assumes reach: "fs = GetLocalPaths H (New dir True) us"
  shows "(\<forall>u1 u2 p1 p2. urlToPath fs u1 = Some p1 \<and> urlToPath fs u2 = Some p2 \<and> u1 \<noteq> u2
            \<longrightarrow> p1 \<noteq> p2)
       \<and> (\<forall>u p. urlToPath fs u = None \<and> fst (GetLocalPath H fs u) = Inr p
            \<longrightarrow> p |\<notin>| pathsInUse fs)
       \<and> (\<forall>originalPath u.
            resolveConflict H fs originalPath u =
              (let ext = Ext originalPath;
                   base = TrimSuffix originalPath ext;
                   h8 = take 8 (generateHashFromURL H u)
               in if base @ ''_'' @ h8 @ ext |\<notin>| pathsInUse fs then base @ ''_'' @ h8 @ ext
                  else counterPath base h8 ext
                         (LEAST k. 1 \<le> k \<and> counterPath base h8 ext k |\<notin>| pathsInUse fs)))
       \<and> (\<forall>s u parsed. \<not> flatten s \<and> urlToPath s u = None \<and> url_Parse u = Inr parsed
            \<longrightarrow> fst (GetLocalPath H s u)
                  = Inr (Join [outputDir s, TrimPrefix (Path parsed) ''/'']))"
proof (intro conjI allI impI)
  fix u1 u2 p1 p2
  assume a: "urlToPath fs u1 = Some p1 \<and> urlToPath fs u2 = Some p2 \<and> u1 \<noteq> u2"
  have "claimed fs"
    unfolding reach by (rule GetLocalPaths_claimed) (simp_all add: New_claimed, simp add: New_def)
  then have "inj_on (urlToPath fs) (dom (urlToPath fs))" by (simp add: claimed_def)
  moreover from a have "u1 \<in> dom (urlToPath fs)" "u2 \<in> dom (urlToPath fs)" by auto
  ultimately have "urlToPath fs u1 \<noteq> urlToPath fs u2"
    using a inj_onD [of "urlToPath fs" "dom (urlToPath fs)" u1 u2] by blast
  with a show "p1 \<noteq> p2" by auto
next
  fix u p
  assume a: "urlToPath fs u = None \<and> fst (GetLocalPath H fs u) = Inr p"
  have "flatten fs" unfolding reach by (simp add: GetLocalPaths_flatten New_def)
  with a show "p |\<notin>| pathsInUse fs" using GetLocalPath_fresh_free [of fs u H p] by blast
next
  fix originalPath u
  show "resolveConflict H fs originalPath u =
              (let ext = Ext originalPath;
                   base = TrimSuffix originalPath ext;
                   h8 = take 8 (generateHashFromURL H u)
               in if base @ ''_'' @ h8 @ ext |\<notin>| pathsInUse fs then base @ ''_'' @ h8 @ ext
                  else counterPath base h8 ext
                         (LEAST k. 1 \<le> k \<and> counterPath base h8 ext k |\<notin>| pathsInUse fs))"
    by (simp add: resolveConflict_def Let_def conflictLoop_first_free)
next
  fix s :: FileSystem and u parsed
  assume "\<not> flatten s \<and> urlToPath s u = None \<and> url_Parse u = Inr parsed"
  then show "fst (GetLocalPath H s u) = Inr (Join [outputDir s, TrimPrefix (Path parsed) ''/''])"
    by (simp add: GetLocalPath_def Let_def)
qed

theorem flattened_paths_distinct_witness:
  "urlToPath (GetLocalPaths exampleSha256 (New ''out'' True)
       [''https://a.example.com/seg_7f7322c0.ts'', ''https://a.example.com/seg.ts'',
        ''https://b.example.com/seg.ts'', ''https://c.example.com/seg.ts''])
   = [''https://a.example.com/seg_7f7322c0.ts'' \<mapsto> ''out/seg_7f7322c0.ts'',
      ''https://a.example.com/seg.ts'' \<mapsto> ''out/seg.ts'',
      ''https://b.example.com/seg.ts'' \<mapsto> ''out/seg_7f7322c0_1.ts'',
      ''https://c.example.com/seg.ts'' \<mapsto> ''out/seg_537bb4d4.ts'']
   \<and> ''out/seg.ts'' \<noteq> ''out/seg_7f7322c0_1.ts''"
proof -
  let ?fs = "GetLocalPaths exampleSha256 (New ''out'' True)
       [''https://a.example.com/seg_7f7322c0.ts'', ''https://a.example.com/seg.ts'',
        ''https://b.example.com/seg.ts'', ''https://c.example.com/seg.ts'']"
  have m: "urlToPath ?fs
   = [''https://a.example.com/seg_7f7322c0.ts'' \<mapsto> ''out/seg_7f7322c0.ts'',
      ''https://a.example.com/seg.ts'' \<mapsto> ''out/seg.ts'',
      ''https://b.example.com/seg.ts'' \<mapsto> ''out/seg_7f7322c0_1.ts'',
      ''https://c.example.com/seg.ts'' \<mapsto> ''out/seg_537bb4d4.ts'']"
    by (simp add: GetLocalPaths_def exampleSha256_def go_eval)
  have a: "urlToPath ?fs ''https://a.example.com/seg.ts'' = Some ''out/seg.ts''"
    and b: "urlToPath ?fs ''https://b.example.com/seg.ts'' = Some ''out/seg_7f7322c0_1.ts''"
    by (simp_all add: m)
  from flattened_paths_distinct [OF refl, of exampleSha256 "''out''"] a b
  have "''out/seg.ts'' \<noteq> ''out/seg_7f7322c0_1.ts''" by blast
  with m show ?thesis by simp
qed

section \<open>The rewriter and the shared maps\<close>





lemma ParseM3U8_empty:
  "ParseM3U8 [] base = Inr \<lparr>Content = [], BaseURL = base, URLs = [], IsM3U8 = Map.empty\<rparr>"
  by (simp add: ParseM3U8_def scanLines_def scanErr_def)





text \<open>When the rewriter panics.\<close>

lemma mustParseURL_Panic: "mustParseURL src = Panic \<longleftrightarrow> (\<exists>e. url_Parse src = Inl e)"
  by (auto simp: mustParseURL_def split: sum.splits)

lemma containsURI_Index: "containsURI line \<longleftrightarrow> Index line uriPrefix \<noteq> None"
  by (simp add: containsURI_def Contains_def)

lemma closedURI_containsURI: "closedURI line \<Longrightarrow> containsURI line"
  by (auto simp: closedURI_def containsURI_Index split: option.splits)

lemma rewriteTagLoop_no_panic:
  "url_Parse src = Inr base \<Longrightarrow> rewriteTagLoop H src fs result \<noteq> Panic"
proof (induction H src fs result rule: rewriteTagLoop.induct)
  case (1 H src fs result)
  have m: "mustParseURL src = Returns base" using "1.prems" by (simp add: mustParseURL_def)
  show ?case
  proof (cases "Index result uriPrefix")
    case None
    then show ?thesis by (simp add: rewriteTagLoop.simps [of H src fs result])
  next
    case (Some uriStart)
    show ?thesis
    proof (cases "Index (drop (uriStart + length uriPrefix) result) [dq]")
      case None
      with Some show ?thesis by (simp add: rewriteTagLoop.simps [of H src fs result])
    next
      case close: (Some uriEnd)
      define absoluteURL where "absoluteURL =
          (case ParseM3U8 [] base of
             Inl e \<Rightarrow> take uriEnd (drop (uriStart + length uriPrefix) result)
           | Inr m3u8File \<Rightarrow>
               resolveURL (BaseURL m3u8File) (take uriEnd (drop (uriStart + length uriPrefix) result)))"
      obtain res fs1 where g: "GetRelativePath H fs src absoluteURL = (res, fs1)"
        by (cases "GetRelativePath H fs src absoluteURL")
      show ?thesis
      proof (cases res)
        case (Inr rel)
        with Some close m g show ?thesis
          by (simp add: rewriteTagLoop.simps [of H src fs result] absoluteURL_def Let_def)
      next
        case (Inl e)
        have "rewriteTagLoop H src fs1 (drop (uriStart + length uriPrefix + uriEnd) result) \<noteq> Panic"
          by (rule "1.IH" [OF Some refl close m refl refl _ _ "1.prems"])
             (use g Inl in \<open>simp_all add: absoluteURL_def\<close>)
        with Some close m g Inl show ?thesis
          by (simp add: rewriteTagLoop.simps [of H src fs result] absoluteURL_def Let_def)
      qed
    qed
  qed
qed

lemma rewriteLine_no_panic:
  "url_Parse src = Inr base \<Longrightarrow> rewriteLine H src fs line \<noteq> Panic"
  using rewriteTagLoop_no_panic [of src base H fs line]
  by (auto simp: rewriteLine_def rewriteTagLine_def rewriteSegmentLine_def mustParseURL_def
        ParseM3U8_empty split: go.splits prod.splits sum.splits)

lemma rewriteLoop_no_panic:
  "url_Parse src = Inr base \<Longrightarrow> rewriteLoop H src lines out fs \<noteq> Panic"
proof (induction lines arbitrary: out fs)
  case Nil
  show ?case by simp
next
  case (Cons line lines)
  then show ?case
    using rewriteLine_no_panic [of src base H fs line] by (auto split: go.splits)
qed

lemma rewriteTagLoop_panics:
  "url_Parse src = Inl e \<Longrightarrow> rewriteTagLoop H src fs line = (if closedURI line then Panic else Returns (line, fs))"
  by (subst rewriteTagLoop.simps)
     (auto simp: closedURI_def mustParseURL_def Let_def split: option.splits)

lemma rewriteLine_panics:
  "url_Parse src = Inl e \<Longrightarrow>
     rewriteLine H src fs line = (if needsBase line then Panic else Returns (line, fs))"
  using closedURI_containsURI [of line]
  by (auto simp: rewriteLine_def rewriteTagLine_def rewriteSegmentLine_def needsBase_def
        rewriteTagLoop_panics mustParseURL_def)

lemma rewriteLoop_panics:
  "url_Parse src = Inl e \<Longrightarrow>
     rewriteLoop H src lines out fs =
       (if list_ex needsBase lines then Panic
        else Returns (out @ concat (map (\<lambda>l. l @ [nl]) lines), fs))"
  by (induction lines arbitrary: out) (simp_all add: rewriteLine_panics)













text \<open>
  C10, as stated, fails in its second half: a tag line whose \<open>URI="\<close> has no closing
  quote leaves the loop of \<open>rewriteTagLine\<close> before \<open>mustParseURL\<close> is called, so the
  rewrite returns although the source URL does not parse.
\<close>

theorem rewrite_unclosed_URI_no_panic:
  "url_Parse '':bad'' = Inl (ParseError '':bad'')
   \<and> HasPrefix (''#EXT-X-KEY:METHOD=AES-128,URI='' @ [dq] @ ''key.bin'') ''#''
   \<and> containsURI (''#EXT-X-KEY:METHOD=AES-128,URI='' @ [dq] @ ''key.bin'')
   \<and> RewriteM3U8URLs exampleSha256 (''#EXT-X-KEY:METHOD=AES-128,URI='' @ [dq] @ ''key.bin'' @ [nl])
        '':bad'' (New ''out'' False)
      = Returns (Inr (''#EXT-X-KEY:METHOD=AES-128,URI='' @ [dq] @ ''key.bin'' @ [nl]), New ''out'' False)"
  by (simp add: go_eval)

text \<open>
  C10, amended. When the source URL parses, \<open>RewriteM3U8URLs\<close> never panics. When it
  does not parse, the rewrite panics exactly when the scanner delivers a line that
  needs the base URL: a non-empty line that does not start with \<open>#\<close>, or a line that
  starts with \<open>#\<close> and holds \<open>URI="\<close> followed by a closing quote.
\<close>

theorem rewrite_panics_iff:
  "(\<forall>base. url_Parse src = Inr base \<longrightarrow> RewriteM3U8URLs H content src fs \<noteq> Panic)
   \<and> (\<forall>e. url_Parse src = Inl e \<longrightarrow>
         (RewriteM3U8URLs H content src fs = Panic \<longleftrightarrow> list_ex needsBase (scanLines content)))"
proof (intro conjI allI impI)
  fix base
  assume "url_Parse src = Inr base"
  from rewriteLoop_no_panic [OF this, of H "scanLines content" "[]" fs]
  show "RewriteM3U8URLs H content src fs \<noteq> Panic"
    by (auto simp: RewriteM3U8URLs_def split: go.splits)
next
  fix e
  assume "url_Parse src = Inl e"
  from rewriteLoop_panics [OF this, of H "scanLines content" "[]" fs]
  show "RewriteM3U8URLs H content src fs = Panic \<longleftrightarrow> list_ex needsBase (scanLines content)"
    by (simp add: RewriteM3U8URLs_def)
qed

theorem rewrite_panics_iff_witness:
  "RewriteM3U8URLs exampleSha256 (''seg1.ts'' @ [nl]) ''https://example.com/path/playlist.m3u8''
      (New ''out'' False) \<noteq> Panic
   \<and> RewriteM3U8URLs exampleSha256 (''seg1.ts'' @ [nl]) '':bad'' (New ''out'' False) = Panic
   \<and> RewriteM3U8URLs exampleSha256 (''#EXTM3U'' @ [nl]) '':bad'' (New ''out'' False) \<noteq> Panic"
proof -
  have ok: "url_Parse ''https://example.com/path/playlist.m3u8''
      = Inr (emptyURL\<lparr>Scheme := ''https'', Host := ''example.com'', Path := ''/path/playlist.m3u8''\<rparr>)"
    by (simp add: go_eval)
  have bad: "url_Parse '':bad'' = Inl (ParseError '':bad'')"
    by (simp add: go_eval)
  have needs: "list_ex needsBase (scanLines (''seg1.ts'' @ [nl]))"
    by (simp add: needsBase_def go_eval)
  have needs_not: "\<not> list_ex needsBase (scanLines (''#EXTM3U'' @ [nl]))"
    by (simp add: needsBase_def closedURI_def go_eval)
  from rewrite_panics_iff [of "''https://example.com/path/playlist.m3u8''" exampleSha256
      "''seg1.ts'' @ [nl]" "New ''out'' False"] ok
  have a: "RewriteM3U8URLs exampleSha256 (''seg1.ts'' @ [nl]) ''https://example.com/path/playlist.m3u8''
      (New ''out'' False) \<noteq> Panic" by blast
  from rewrite_panics_iff [of "'':bad''" exampleSha256 "''seg1.ts'' @ [nl]" "New ''out'' False"] bad needs
  have b: "RewriteM3U8URLs exampleSha256 (''seg1.ts'' @ [nl]) '':bad'' (New ''out'' False) = Panic"
    by blast
  from rewrite_panics_iff [of "'':bad''" exampleSha256 "''#EXTM3U'' @ [nl]" "New ''out'' False"] bad needs_not
  have c: "RewriteM3U8URLs exampleSha256 (''#EXTM3U'' @ [nl]) '':bad'' (New ''out'' False) \<noteq> Panic"
    by blast
  from a b c show ?thesis by blast
qed

text \<open>
  C4 does not hold of the code. When \<open>GetRelativePath\<close> fails for a URI of a tag line,
  \<open>rewriteTagLine\<close> does not keep the line: it cuts the line down to the text from the
  URI's closing quote on and returns that with a \<open>nil\<close> error, so the caller's
  "on error, keep original line" never applies. Here the mapping fails because the
  playlist's own path starts with \<open>..\<close>; the key line is written as a lone quote.
\<close>

theorem rewriteTagLine_truncates_on_failure:
  "fst (GetRelativePath exampleSha256 (New ''.'' False) ''https://example.com/../v/low.m3u8''
         ''https://k.example.com/key.bin'')
     = Inl (RelError ''../v'' ''key.bin'')
   \<and> RewriteM3U8URLs exampleSha256
        (''#EXT-X-KEY:METHOD=AES-128,URI='' @ [dq] @ ''https://k.example.com/key.bin'' @ [dq] @ [nl])
        ''https://example.com/../v/low.m3u8'' (New ''.'' False)
      = Returns (Inr ([dq] @ [nl]),
          \<lparr>outputDir = ''.'', flatten = False,
            urlToPath = [''https://example.com/../v/low.m3u8'' \<mapsto> ''../v/low.m3u8'',
                         ''https://k.example.com/key.bin'' \<mapsto> ''key.bin''],
            pathsInUse = {|''key.bin'', ''../v/low.m3u8''|}\<rparr>)"
  by (simp add: go_eval)

section \<open>The resolver and the parser\<close>



text \<open>
  The reference list of a parsed playlist holds the references of its lines in the
  order of the text: for a bare line its resolved URL, for a tag line its resolved
  URIs.
\<close>

lemma addTagURL_URLs:
  "URLs (foldl (addTagURL baseURL) m us) = URLs m @ map (resolveURL baseURL) us"
  by (induction us arbitrary: m) (simp_all add: addTagURL_def Let_def)

lemma parseLine_URLs: "URLs (parseLine baseURL m text) = URLs m @ lineRefs baseURL text"
  by (simp add: parseLine_def lineRefs_def Let_def addTagURL_URLs)

lemma parseLines_URLs:
  "URLs (foldl (parseLine baseURL) m ls) = URLs m @ concat (map (lineRefs baseURL) ls)"
  by (induction ls arbitrary: m) (simp_all add: parseLine_URLs)

lemma ParseM3U8_reference_order:
  "ParseM3U8 content baseURL = Inr m \<Longrightarrow>
     URLs m = concat (map (lineRefs baseURL) (scanLines content))"
  by (auto simp: ParseM3U8_def Let_def parseLines_URLs split: if_splits)

text \<open>
  C8 does not hold of the parsed playlist. The flags are kept per resolved URL, and a
  URI of a tag line that does not end in \<open>.m3u8\<close> sets the flag of its URL to false.
  The bare line \<open>audio.m3u8?v=1\<close> holds \<open>.m3u8?\<close>, but after the tag line with the same
  URI its reference is not flagged as a playlist.
\<close>

theorem tag_URI_overwrites_playlist_flag:
  "ParseM3U8 (''audio.m3u8?v=1'' @ [nl] @ ''#EXT-X-MEDIA:TYPE=AUDIO,URI='' @ [dq] @ ''audio.m3u8?v=1'' @ [dq] @ [nl])
      (emptyURL\<lparr>Scheme := ''https'', Host := ''example.com'', Path := ''/master.m3u8''\<rparr>)
   = Inr \<lparr>Content = ''audio.m3u8?v=1'' @ [nl] @ ''#EXT-X-MEDIA:TYPE=AUDIO,URI='' @ [dq] @ ''audio.m3u8?v=1'' @ [dq] @ [nl],
          BaseURL = emptyURL\<lparr>Scheme := ''https'', Host := ''example.com'', Path := ''/master.m3u8''\<rparr>,
          URLs = [''https://example.com/audio.m3u8?v=1'', ''https://example.com/audio.m3u8?v=1''],
          IsM3U8 = [''https://example.com/audio.m3u8?v=1'' \<mapsto> False]\<rparr>
   \<and> Contains ''audio.m3u8?v=1'' ''.m3u8?''"
  by (simp add: go_eval)

section \<open>The filter\<close>




section \<open>The visited set under concurrent workers\<close>

text \<open>
  A single worker fetches no URL twice: the check and the mark are then never
  separated by another worker's step.
\<close>

lemma step_oneWorkerInv: "step s t \<Longrightarrow> oneWorkerInv s \<Longrightarrow> oneWorkerInv t"
proof (induction rule: step.induct)
  case (receive i s u rest)
  then show ?case
    by (cases "workers s") (auto simp: oneWorkerInv_def split: list.splits worker.splits)
next
  case (isVisited_true i s u)
  then show ?case
    by (cases "workers s") (auto simp: oneWorkerInv_def split: list.splits worker.splits)
next
  case (isVisited_false i s u)
  then show ?case
    by (cases "workers s") (auto simp: oneWorkerInv_def split: list.splits worker.splits)
next
  case (markVisited i s u)
  then show ?case
    by (cases "workers s") (auto simp: oneWorkerInv_def split: list.splits worker.splits)
next
  case (fetch i s u)
  then show ?case
    by (cases "workers s") (auto simp: oneWorkerInv_def split: list.splits worker.splits)
qed

lemma one_worker_fetches_once:
  "step\<^sup>*\<^sup>* (startCrawl 1 urls) s \<Longrightarrow> distinct (fetches s)"
proof -
  assume r: "step\<^sup>*\<^sup>* (startCrawl 1 urls) s"
  have "oneWorkerInv (startCrawl 1 urls)"
    by (simp add: oneWorkerInv_def startCrawl_def)
  with r have "oneWorkerInv s"
    by (induction rule: rtranclp_induct) (auto intro: step_oneWorkerInv)
  then show ?thesis by (simp add: oneWorkerInv_def)
qed

text \<open>
  C1 does not hold of the code. A playlist that lists one segment twice puts its URL
  on the channel twice (neither the parser nor the filter removes duplicates). With two
  workers, both can pass \<open>isVisited\<close> before either calls \<open>markVisited\<close>, and the
  fetcher is then invoked twice for the URL.
\<close>

theorem visited_check_then_mark_races:
  "ParseM3U8 (''seg.ts'' @ [nl] @ ''seg.ts'' @ [nl]) exampleBase
     = Inr \<lparr>Content = ''seg.ts'' @ [nl] @ ''seg.ts'' @ [nl], BaseURL = exampleBase,
            URLs = [''https://example.com/path/seg.ts'', ''https://example.com/path/seg.ts''],
            IsM3U8 = [''https://example.com/path/seg.ts'' \<mapsto> False]\<rparr>
   \<and> filterURLs \<lparr>includeExts = [], excludeExts = []\<rparr>
        [''https://example.com/path/seg.ts'', ''https://example.com/path/seg.ts'']
     = [''https://example.com/path/seg.ts'', ''https://example.com/path/seg.ts'']
   \<and> step\<^sup>*\<^sup>*
        (startCrawl 2 [''https://example.com/path/seg.ts'', ''https://example.com/path/seg.ts''])
        \<lparr>urlChan = [], visited = {''https://example.com/path/seg.ts''},
          fetches = [''https://example.com/path/seg.ts'', ''https://example.com/path/seg.ts''],
          workers = [Idle, Idle]\<rparr>"
proof (intro conjI)
  show "ParseM3U8 (''seg.ts'' @ [nl] @ ''seg.ts'' @ [nl]) exampleBase
     = Inr \<lparr>Content = ''seg.ts'' @ [nl] @ ''seg.ts'' @ [nl], BaseURL = exampleBase,
            URLs = [''https://example.com/path/seg.ts'', ''https://example.com/path/seg.ts''],
            IsM3U8 = [''https://example.com/path/seg.ts'' \<mapsto> False]\<rparr>"
    by (simp add: exampleBase_def go_eval)
  show "filterURLs \<lparr>includeExts = [], excludeExts = []\<rparr>
        [''https://example.com/path/seg.ts'', ''https://example.com/path/seg.ts'']
     = [''https://example.com/path/seg.ts'', ''https://example.com/path/seg.ts'']"
    by (simp add: go_eval)
next
  define u where "u = ''https://example.com/path/seg.ts''"
  let ?s = "\<lambda>c v f w. \<lparr>urlChan = c, visited = v, fetches = f, workers = w\<rparr>"
  have s0: "startCrawl 2 [u, u] = ?s [u, u] {} [] [Idle, Idle]"
    by (simp add: startCrawl_def numeral_2_eq_2)
  have 1: "step (?s [u, u] {} [] [Idle, Idle]) (?s [u] {} [] [BeforeIsVisited u, Idle])"
    using receive [of 0 "?s [u, u] {} [] [Idle, Idle]" u "[u]"] by simp
  have 2: "step (?s [u] {} [] [BeforeIsVisited u, Idle])
                (?s [] {} [] [BeforeIsVisited u, BeforeIsVisited u])"
    using receive [of 1 "?s [u] {} [] [BeforeIsVisited u, Idle]" u "[]"] by simp
  have 3: "step (?s [] {} [] [BeforeIsVisited u, BeforeIsVisited u])
                (?s [] {} [] [BeforeMarkVisited u, BeforeIsVisited u])"
    using isVisited_false [of 0 "?s [] {} [] [BeforeIsVisited u, BeforeIsVisited u]" u] by simp
  have 4: "step (?s [] {} [] [BeforeMarkVisited u, BeforeIsVisited u])
                (?s [] {} [] [BeforeMarkVisited u, BeforeMarkVisited u])"
    using isVisited_false [of 1 "?s [] {} [] [BeforeMarkVisited u, BeforeIsVisited u]" u] by simp
  have 5: "step (?s [] {} [] [BeforeMarkVisited u, BeforeMarkVisited u])
                (?s [] {u} [] [BeforeFetch u, BeforeMarkVisited u])"
    using markVisited [of 0 "?s [] {} [] [BeforeMarkVisited u, BeforeMarkVisited u]" u] by simp
  have 6: "step (?s [] {u} [] [BeforeFetch u, BeforeMarkVisited u])
                (?s [] {u} [] [BeforeFetch u, BeforeFetch u])"
    using markVisited [of 1 "?s [] {u} [] [BeforeFetch u, BeforeMarkVisited u]" u] by simp
  have 7: "step (?s [] {u} [] [BeforeFetch u, BeforeFetch u])
                (?s [] {u} [u] [Idle, BeforeFetch u])"
    using fetch [of 0 "?s [] {u} [] [BeforeFetch u, BeforeFetch u]" u] by simp
  have 8: "step (?s [] {u} [u] [Idle, BeforeFetch u]) (?s [] {u} [u, u] [Idle, Idle])"
    using fetch [of 1 "?s [] {u} [u] [Idle, BeforeFetch u]" u] by simp
  have "step\<^sup>*\<^sup>* (?s [u, u] {} [] [Idle, Idle]) (?s [] {u} [u, u] [Idle, Idle])"
    using 1 2 3 4 5 6 7 8 by (meson rtranclp.rtrancl_into_rtrancl rtranclp.rtrancl_refl)
  with s0 show "step\<^sup>*\<^sup>*
        (startCrawl 2 [''https://example.com/path/seg.ts'', ''https://example.com/path/seg.ts''])
        \<lparr>urlChan = [], visited = {''https://example.com/path/seg.ts''},
          fetches = [''https://example.com/path/seg.ts'', ''https://example.com/path/seg.ts''],
          workers = [Idle, Idle]\<rparr>"
    by (simp add: u_def)
qed

end
